theory Spec2Isabelle
  imports Main
begin

section \<open>Data model of \<open>command/plugin_manager.go\<close>\<close>

text \<open>
  The plugin manager works on \<open>*Plugin\<close> pointers: the slice held by the manager, the
  filtered slice of \<open>StoreUsed\<close> and the closure stored in \<open>Plugin.App\<close> all alias the
  same objects. The embedding therefore keeps the plugins in an explicit store (a list
  of records; a pointer is an index into it, allocation appends), and threads a state
  record through every function. Everything that lives outside the source file (the
  plugin RPC library, the operating system, the JSON and MD5 libraries, the Go map
  iteration order, the package variable \<open>testingMode\<close>) is a field of the environment
  record \<open>env\<close>, which every function takes as a parameter.
\<close>

type_synonym ptr = nat

text \<open>\<open>app.Tuple\<close>, \<open>plugin.ServeMux\<close>, the RPC client and the \<open>app.App\<close> implementation are
  opaque to this file; they are identified by a key.\<close>

type_synonym Tuple = string
type_synonym ServeMux = nat
type_synonym Client = nat
type_synonym AppImpl = nat

record Meta =
  Tuples :: "Tuple list"

text \<open>
  Errors are values. \<open>ExtError\<close> is an error returned by a collaborator (\<open>os\<close>,
  \<open>io\<close>, \<open>json\<close>, the plugin library); \<open>HashError\<close> and \<open>LoadError\<close> are the two
  \<open>fmt.Errorf\<close> wrappers of lines 215 and 292, with the path and the wrapped error;
  \<open>FormatNewerError\<close> is the message of lines 256-260; \<open>MultiError\<close> is a
  \<open>*multierror.Error\<close>.
\<close>

datatype error =
    ExtError string
  | HashError string error
  | LoadError string error
  | FormatNewerError
  | MultiError "error list"

datatype panic = NilPointerDereference

text \<open>
  \<open>app.Factory\<close> is a function value. The only factory this file builds is the closure
  of lines 115-118, which captures the plugin pointer \<open>p\<close> and the RPC \<open>client\<close>;
  the zero value of the field is the nil function.
\<close>

datatype Factory = NilFactory | UsedFactory ptr Client

record Plugin =
  Path :: string
  Args :: "string list"
  MD5 :: string
  App :: Factory
  AppMeta :: "Meta option"
  used :: bool

record PluginManager =
  PluginDirs :: "string list"
  PluginMap :: "string \<rightharpoonup> ServeMux"
  plugins :: "ptr list option"

text \<open>
  The JSON view of \<open>usedPluginWrapper\<close>: of a \<open>Plugin\<close> only \<open>path\<close>, \<open>args\<close> and
  \<open>md5\<close> are serialised (\<open>App\<close> and \<open>AppMeta\<close> are tagged \<open>json:"-"\<close>, \<open>used\<close> is
  unexported). \<open>None\<close> is the nil slice (JSON \<open>null\<close> or an absent key). A nil and an
  empty \<open>Args\<close> slice behave alike everywhere in this file and are both \<open>[]\<close>. Arrays
  with \<open>null\<close> elements (nil plugin pointers) are not represented.
\<close>

type_synonym PluginJSON = "string \<times> string list \<times> string"

record usedPluginWrapper =
  Version :: int
  Plugins_w :: "PluginJSON list option"

definition usedPluginVersion :: int where
  "usedPluginVersion = 1"

datatype file_data = Content string | ReadError

record env =
  testingMode :: bool
  osext_Executable :: "error + string"
  NumCPU :: nat
  range_keys :: "(string \<rightharpoonup> ServeMux) \<Rightarrow> string list"
  pluginClient_Client :: "string \<Rightarrow> string list \<Rightarrow> error + Client"
  client_App :: "Client \<Rightarrow> error + AppImpl"
  appImpl_Meta :: "AppImpl \<Rightarrow> Meta option \<times> error option"
  md5_Sum :: "string \<Rightarrow> nat list"
  json_Encode :: "usedPluginWrapper \<Rightarrow> string"
  json_Decode :: "string \<Rightarrow> error + usedPluginWrapper"
  os_Create_error :: "string \<Rightarrow> error option"
  write_error :: "string \<Rightarrow> error option"

text \<open>
  \<open>exec_log\<close> records the commands handed to \<open>plugin.NewClient\<close> and started by
  \<open>pluginClient.Client()\<close>: one entry per call of \<open>Load\<close>.
\<close>

record state =
  heap :: "Plugin list"
  mgr :: PluginManager
  files :: "string \<rightharpoonup> file_data"
  exec_log :: "(string \<times> string list) list"

record CoreConfig =
  Apps :: "(Tuple \<rightharpoonup> Factory) option"

section \<open>Library functions used by the file\<close>

definition hexdigit :: "nat \<Rightarrow> char" where
  "hexdigit n = ''0123456789abcdef'' ! (n mod 16)"

definition hex_EncodeToString :: "nat list \<Rightarrow> string" where
  "hex_EncodeToString bs = concat (map (\<lambda>b. [hexdigit (b div 16), hexdigit b]) bs)"

text \<open>\<open>multierror.Append(err, e)\<close> for an \<open>e\<close> that is not itself a multi-error.\<close>

fun multierror_Append :: "error option \<Rightarrow> error \<Rightarrow> error" where
  "multierror_Append None e = MultiError [e]"
| "multierror_Append (Some (MultiError es)) e = MultiError (es @ [e])"
| "multierror_Append (Some e0) e = MultiError [e0, e]"

definition os_Open :: "state \<Rightarrow> string \<Rightarrow> error + file_data" where
  "os_Open s path =
     (case files s path of
        None \<Rightarrow> Inl (ExtError (''open '' @ path))
      | Some f \<Rightarrow> Inr f)"

definition io_ReadAll :: "file_data \<Rightarrow> error + string" where
  "io_ReadAll f = (case f of ReadError \<Rightarrow> Inl (ExtError ''read'') | Content c \<Rightarrow> Inr c)"

text \<open>Ranging over a nil slice runs zero iterations.\<close>

definition range_slice :: "'a list option \<Rightarrow> 'a list" where
  "range_slice xs = (case xs of None \<Rightarrow> [] | Some ys \<Rightarrow> ys)"

definition alloc :: "Plugin \<Rightarrow> state \<Rightarrow> ptr \<times> state" where
  "alloc pl s = (length (heap s), s\<lparr>heap := heap s @ [pl]\<rparr>)"

definition new_Plugin :: "string \<Rightarrow> string list \<Rightarrow> string \<Rightarrow> Plugin" where
  "new_Plugin path args md5 =
     \<lparr>Path = path, Args = args, MD5 = md5, App = NilFactory, AppMeta = None, used = False\<rparr>"

definition set_plugin :: "ptr \<Rightarrow> (Plugin \<Rightarrow> Plugin) \<Rightarrow> state \<Rightarrow> state" where
  "set_plugin p f s = s\<lparr>heap := (heap s)[p := f (heap s ! p)]\<rparr>"

section \<open>Plugin\<close>

text \<open>\<open>CalcMD5\<close> (lines 67-82): both failures return before \<open>p.MD5\<close> is assigned.\<close>

definition CalcMD5 :: "env \<Rightarrow> ptr \<Rightarrow> state \<Rightarrow> error option \<times> state" where
  "CalcMD5 E p s =
     (case os_Open s (Path (heap s ! p)) of
        Inl err \<Rightarrow> (Some err, s)
      | Inr f \<Rightarrow>
          (case io_ReadAll f of
             Inl err \<Rightarrow> (Some err, s)
           | Inr c \<Rightarrow>
               (None, set_plugin p (\<lambda>pl. pl\<lparr>MD5 := hex_EncodeToString (md5_Sum E c)\<rparr>) s)))"

text \<open>
  \<open>Load\<close> (lines 86-121). The field \<open>MD5\<close> is not read. \<open>appImpl.Meta()\<close> returns a
  pair, and its first component is stored in \<open>p.AppMeta\<close> before the error is looked
  at. The deferred \<open>Close\<close> of the app implementation acts on the plugin process only.
\<close>

definition Load :: "env \<Rightarrow> ptr \<Rightarrow> state \<Rightarrow> error option \<times> state" where
  "Load E p s =
     (let pl = heap s ! p;
          s1 = s\<lparr>exec_log := exec_log s @ [(Path pl, Args pl)]\<rparr>
      in case pluginClient_Client E (Path pl) (Args pl) of
           Inl err \<Rightarrow> (Some err, s1)
         | Inr client \<Rightarrow>
             (case client_App E client of
                Inl err \<Rightarrow> (Some err, s1)
              | Inr appImpl \<Rightarrow>
                  (let (meta, merr) = appImpl_Meta E appImpl;
                       s2 = set_plugin p (\<lambda>pl. pl\<lparr>AppMeta := meta\<rparr>) s1
                   in case merr of
                        Some err \<Rightarrow> (Some err, s2)
                      | None \<Rightarrow>
                          (None, set_plugin p
                                   (\<lambda>pl. pl\<lparr>used := False, App := UsedFactory p client\<rparr>) s2))))"

text \<open>\<open>Used\<close> (lines 126-128).\<close>

definition Used :: "state \<Rightarrow> ptr \<Rightarrow> bool" where
  "Used s p = used (heap s ! p)"

text \<open>
  Calling a factory value. The closure of lines 115-118 sets \<open>p.used\<close> and returns
  \<open>client.App()\<close>; calling the nil function panics.
\<close>

fun call_Factory :: "env \<Rightarrow> Factory \<Rightarrow> state \<Rightarrow> panic + ((error + AppImpl) \<times> state)" where
  "call_Factory E NilFactory s = Inl NilPointerDereference"
| "call_Factory E (UsedFactory p client) s =
     Inr (client_App E client, set_plugin p (\<lambda>pl. pl\<lparr>used := True\<rparr>) s)"

section \<open>PluginManager\<close>

text \<open>\<open>Plugins\<close> (lines 151-153).\<close>

definition Plugins :: "state \<Rightarrow> ptr list option" where
  "Plugins s = plugins (mgr s)"

text \<open>
  \<open>ConfigureCore\<close> (lines 136-148). \<open>p.AppMeta\<close> is a pointer, and \<open>p.AppMeta.Tuples\<close>
  dereferences it: on a plugin whose \<open>AppMeta\<close> is nil the function panics.
\<close>

definition install :: "Factory \<Rightarrow> Tuple list \<Rightarrow> (Tuple \<rightharpoonup> Factory) \<Rightarrow> (Tuple \<rightharpoonup> Factory)" where
  "install f ts apps = fold (\<lambda>tuple a. a(tuple \<mapsto> f)) ts apps"

fun configure_loop ::
  "Plugin list \<Rightarrow> ptr list \<Rightarrow> (Tuple \<rightharpoonup> Factory) \<Rightarrow> panic + (Tuple \<rightharpoonup> Factory)" where
  "configure_loop h [] apps = Inr apps"
| "configure_loop h (p # ps) apps =
     (case AppMeta (h ! p) of
        None \<Rightarrow> Inl NilPointerDereference
      | Some meta \<Rightarrow> configure_loop h ps (install (App (h ! p)) (Tuples meta) apps))"

definition ConfigureCore :: "state \<Rightarrow> CoreConfig \<Rightarrow> panic + (error option \<times> CoreConfig)" where
  "ConfigureCore s core =
     (let apps = (case Apps core of None \<Rightarrow> Map.empty | Some a \<Rightarrow> a)
      in case configure_loop (heap s) (range_slice (Plugins s)) apps of
           Inl pn \<Rightarrow> Inl pn
         | Inr apps' \<Rightarrow> Inr (None, core\<lparr>Apps := Some apps'\<rparr>))"

text \<open>
  \<open>Discover\<close> (lines 157-185). The order in which \<open>range m.PluginMap\<close> yields the keys
  of the Go map is the environment's \<open>range_keys\<close>. The log lines are not modelled.
\<close>

definition add_plugin :: "Plugin \<Rightarrow> ptr list \<times> state \<Rightarrow> ptr list \<times> state" where
  "add_plugin pl = (\<lambda>(result, s). (let (p, s') = alloc pl s in (result @ [p], s')))"

definition builtin_Plugin :: "string \<Rightarrow> string \<Rightarrow> Plugin" where
  "builtin_Plugin exePath k = new_Plugin exePath [''plugin-builtin'', k] []"

definition Discover :: "env \<Rightarrow> state \<Rightarrow> error option \<times> state" where
  "Discover E s =
     (if \<not> testingMode E then
        (case osext_Executable E of
           Inl err \<Rightarrow> (Some err, s)
         | Inr exePath \<Rightarrow>
             (let (result, s') =
                    fold (\<lambda>k. add_plugin (builtin_Plugin exePath k))
                      (range_keys E (PluginMap (mgr s))) ([], s)
              in (None, s'\<lparr>mgr := (mgr s')\<lparr>plugins := Some result\<rparr>\<rparr>)))
      else (None, s\<lparr>mgr := (mgr s)\<lparr>plugins := Some []\<rparr>\<rparr>))"

text \<open>
  \<open>LoadAll\<close> (lines 268-303). One goroutine per plugin runs \<open>Load\<close> on its own plugin
  and, on failure, appends the wrapped error to the shared \<open>merr\<close> under the lock; the
  function returns after \<open>wg.Wait()\<close>. Each task writes its own plugin only, so the
  embedding runs the tasks in slice order; the schedule decides nothing but the order
  of the entries of \<open>merr\<close> and of the process log.
\<close>

definition load_task :: "env \<Rightarrow> ptr \<Rightarrow> error option \<times> state \<Rightarrow> error option \<times> state" where
  "load_task E p = (\<lambda>(merr, s).
     (case Load E p s of
        (None, s') \<Rightarrow> (merr, s')
      | (Some err, s') \<Rightarrow>
          (Some (multierror_Append merr (LoadError (Path (heap s' ! p)) err)), s')))"

definition load_pass :: "env \<Rightarrow> state \<Rightarrow> error option \<times> state" where
  "load_pass E s = fold (load_task E) (range_slice (Plugins s)) (None, s)"

definition LoadAll :: "env \<Rightarrow> state \<Rightarrow> error option \<times> state" where
  "LoadAll E s =
     (if Plugins s = None then
        (case Discover E s of
           (Some err, s') \<Rightarrow> (Some err, s')
         | (None, s') \<Rightarrow> load_pass E s')
      else load_pass E s)"

text \<open>
  \<open>StoreUsed\<close> (lines 190-237). In the goroutine body, \<open>if err := p.CalcMD5(); err != nil\<close>
  declares a new \<open>err\<close> whose scope is the \<open>if\<close> statement, so the assignment
  \<open>err = multierror.Append(err, ...)\<close> of line 215 writes that inner variable: the \<open>err\<close>
  of line 200, tested at line 221, is never assigned by a task. \<open>hash_task\<close> keeps both
  variables apart.
\<close>

definition hash_task :: "env \<Rightarrow> ptr \<Rightarrow> error option \<times> state \<Rightarrow> error option \<times> state" where
  "hash_task E p = (\<lambda>(err, s).
     (case CalcMD5 E p s of
        (None, s') \<Rightarrow> (err, s')
      | (Some err_inner, s') \<Rightarrow>
          (let err_inner' =
                 multierror_Append (Some err_inner) (HashError (Path (heap s' ! p)) err_inner)
           in (err, s'))))"

definition to_json :: "Plugin \<Rightarrow> PluginJSON" where
  "to_json pl = (Path pl, Args pl, MD5 pl)"

definition manifest :: "state \<Rightarrow> ptr list \<Rightarrow> usedPluginWrapper" where
  "manifest s ps =
     \<lparr>Version = usedPluginVersion, Plugins_w = Some (map (\<lambda>p. to_json (heap s ! p)) ps)\<rparr>"

definition used_plugins :: "state \<Rightarrow> ptr list" where
  "used_plugins s = filter (Used s) (range_slice (Plugins s))"

definition StoreUsed :: "env \<Rightarrow> string \<Rightarrow> state \<Rightarrow> error option \<times> state" where
  "StoreUsed E path s =
     (let ps = used_plugins s;
          (err, s1) = fold (hash_task E) ps (None, s)
      in case err of
           Some e \<Rightarrow> (Some e, s1)
         | None \<Rightarrow>
             (case os_Create_error E path of
                Some e \<Rightarrow> (Some e, s1)
              | None \<Rightarrow>
                  (case write_error E path of
                     Some e \<Rightarrow> (Some e, s1\<lparr>files := (files s1)(path \<mapsto> Content [])\<rparr>)
                   | None \<Rightarrow>
                       (None, s1\<lparr>files := (files s1)(path \<mapsto>
                                 Content (json_Encode E (manifest s1 ps)))\<rparr>))))"

text \<open>
  \<open>LoadUsed\<close> (lines 241-265). The decoded plugins are fresh objects whose fields other
  than \<open>Path\<close>, \<open>Args\<close> and \<open>MD5\<close> hold their zero values; they enter the store when
  \<open>m.plugins\<close> is assigned.
\<close>

definition of_json :: "PluginJSON \<Rightarrow> Plugin" where
  "of_json j = (case j of (path, args, md5) \<Rightarrow> new_Plugin path args md5)"

definition assign_plugins :: "PluginJSON list option \<Rightarrow> state \<Rightarrow> state" where
  "assign_plugins w s =
     (case w of
        None \<Rightarrow> s\<lparr>mgr := (mgr s)\<lparr>plugins := None\<rparr>\<rparr>
      | Some js \<Rightarrow>
          (let (result, s') = fold (\<lambda>j. add_plugin (of_json j)) js ([], s)
           in s'\<lparr>mgr := (mgr s')\<lparr>plugins := Some result\<rparr>\<rparr>))"

definition LoadUsed :: "env \<Rightarrow> string \<Rightarrow> state \<Rightarrow> error option \<times> state" where
  "LoadUsed E path s =
     (case os_Open s path of
        Inl err \<Rightarrow> (Some err, s)
      | Inr f \<Rightarrow>
          (case (case io_ReadAll f of Inl err \<Rightarrow> Inl err | Inr c \<Rightarrow> json_Decode E c) of
             Inl err \<Rightarrow> (Some err, s)
           | Inr wrapper \<Rightarrow>
               if Version wrapper > usedPluginVersion then (Some FormatNewerError, s)
               else LoadAll E (assign_plugins (Plugins_w wrapper) s)))"

section \<open>The bounded task pool of \<open>LoadAll\<close> and \<open>StoreUsed\<close>\<close>

text \<open>
  Both passes spawn one goroutine per plugin (lines 204-219 and 281-297). Each goroutine
  calls \<open>sema.Acquire()\<close>, then does its work (\<open>plugin.Load()\<close> or \<open>p.CalcMD5()\<close>), and
  the deferred \<open>sema.Release()\<close> runs when the work is over. A task is therefore in one
  of three phases: \<open>Waiting\<close> (spawned, \<open>Acquire\<close> has not returned), \<open>Working\<close>
  (between \<open>Acquire\<close> and \<open>Release\<close>) and \<open>Finished\<close>. An interleaving of the
  goroutines is a list of events; an event that cannot happen in a configuration (a
  blocked \<open>Acquire\<close>) has no successor.
\<close>

datatype phase = Waiting | Working | Finished

datatype event = Acquire nat | Release nat

record pool =
  free :: nat
  tasks :: "phase list"

text \<open>
  Modelled from the spec: \<open>semaphore.New\<close> of the package \<open>helper/semaphore\<close>, which is
  missing from the sources. The spec: "a shared bounded concurrency limiter (permit
  count = number of available processing units)". The semaphore is the number of free
  permits.
\<close>

definition semaphore_New :: "nat \<Rightarrow> nat" where
  "semaphore_New n = n"

text \<open>
  Modelled from the spec: \<open>Acquire\<close> of the missing package \<open>helper/semaphore\<close>. The spec:
  "acquire a permit before doing work"; "acquisition blocks the spawning task (not the
  caller) until a permit frees up". \<open>None\<close>: the caller is blocked.
\<close>

definition sema_Acquire :: "nat \<Rightarrow> nat option" where
  "sema_Acquire permits = (if 0 < permits then Some (permits - 1) else None)"

text \<open>
  Modelled from the spec: \<open>Release\<close> of the missing package \<open>helper/semaphore\<close>. The spec:
  "release on completion".
\<close>

definition sema_Release :: "nat \<Rightarrow> nat" where
  "sema_Release permits = permits + 1"

text \<open>
  The pool at the moment all goroutines have been spawned: \<open>semaphore.New(runtime.NumCPU())\<close>
  (lines 203 and 280) and one waiting task per plugin of the slice that is ranged over.
\<close>

definition spawn :: "env \<Rightarrow> 'a list \<Rightarrow> pool" where
  "spawn E ps = \<lparr>free = semaphore_New (NumCPU E), tasks = map (\<lambda>_. Waiting) ps\<rparr>"

definition LoadAll_pool :: "env \<Rightarrow> state \<Rightarrow> pool" where
  "LoadAll_pool E s = spawn E (range_slice (Plugins s))"

definition StoreUsed_pool :: "env \<Rightarrow> state \<Rightarrow> pool" where
  "StoreUsed_pool E s = spawn E (used_plugins s)"

fun step :: "pool \<Rightarrow> event \<Rightarrow> pool option" where
  "step P (Acquire i) =
     (if i < length (tasks P) \<and> tasks P ! i = Waiting then
        (case sema_Acquire (free P) of
           None \<Rightarrow> None
         | Some n \<Rightarrow> Some (P\<lparr>free := n, tasks := (tasks P)[i := Working]\<rparr>))
      else None)"
| "step P (Release i) =
     (if i < length (tasks P) \<and> tasks P ! i = Working then
        Some (P\<lparr>free := sema_Release (free P), tasks := (tasks P)[i := Finished]\<rparr>)
      else None)"

fun run :: "pool \<Rightarrow> event list \<Rightarrow> pool option" where
  "run P [] = Some P"
| "run P (e # es) = (case step P e of None \<Rightarrow> None | Some P' \<Rightarrow> run P' es)"

definition in_flight :: "pool \<Rightarrow> nat" where
  "in_flight P = length (filter (\<lambda>ph. ph = Working) (tasks P))"

section \<open>The operations of the subsystem\<close>

text \<open>
  One value per entry point of the file, and \<open>exec\<close>, which runs an operation on a
  state. \<open>OpCall\<close> calls a factory value, as the host does with the factories it finds
  in \<open>Plugin.App\<close> or in the capability table. A panic has no successor state.
\<close>

datatype operation =
    OpLoad ptr
  | OpCalcMD5 ptr
  | OpCall Factory
  | OpConfigureCore CoreConfig
  | OpDiscover
  | OpStoreUsed string
  | OpLoadUsed string
  | OpLoadAll

fun exec :: "env \<Rightarrow> operation \<Rightarrow> state \<Rightarrow> panic + state" where
  "exec E (OpLoad q) s = Inr (snd (Load E q s))"
| "exec E (OpCalcMD5 q) s = Inr (snd (CalcMD5 E q s))"
| "exec E (OpCall f) s =
     (case call_Factory E f s of Inl pn \<Rightarrow> Inl pn | Inr (r, s') \<Rightarrow> Inr s')"
| "exec E (OpConfigureCore core) s =
     (case ConfigureCore s core of Inl pn \<Rightarrow> Inl pn | Inr r \<Rightarrow> Inr s)"
| "exec E OpDiscover s = Inr (snd (Discover E s))"
| "exec E (OpStoreUsed path) s = Inr (snd (StoreUsed E path s))"
| "exec E (OpLoadUsed path) s = Inr (snd (LoadUsed E path s))"
| "exec E OpLoadAll s = Inr (snd (LoadAll E s))"


section \<open>Notions used to state the properties\<close>

text \<open>The pairs \<open>(Path, Args)\<close> of a list of handles, in order.\<close>

definition recipes :: "state \<Rightarrow> ptr list \<Rightarrow> (string \<times> string list) list" where
  "recipes s ps = map (\<lambda>p. (Path (heap s ! p), Args (heap s ! p))) ps"

text \<open>Every handle of the live set is an allocated object, and no object occurs twice.\<close>

definition handles_ok :: "state \<Rightarrow> bool" where
  "handles_ok s =
     (distinct (range_slice (Plugins s)) \<and> list_all (\<lambda>p. p < length (heap s)) (range_slice (Plugins s)))"



text \<open>Whether the metadata of handle \<open>p\<close> lists the tuple \<open>t\<close>.\<close>

definition declares :: "state \<Rightarrow> Tuple \<Rightarrow> ptr \<Rightarrow> bool" where
  "declares s t p =
     (case AppMeta (heap s ! p) of None \<Rightarrow> False | Some meta \<Rightarrow> t \<in> set (Tuples meta))"

text \<open>
  The capability table that last-wins installation over the handles \<open>ps\<close> makes of the
  table \<open>apps\<close>: a tuple maps to the factory of the last handle of \<open>ps\<close> that declares
  it, and is left as it was when no handle does.
\<close>

definition last_wins :: "state \<Rightarrow> ptr list \<Rightarrow> (Tuple \<rightharpoonup> Factory) \<Rightarrow> (Tuple \<rightharpoonup> Factory)" where
  "last_wins s ps apps =
     (\<lambda>t. case find (declares s t) (rev ps) of
             None \<Rightarrow> apps t
           | Some p \<Rightarrow> Some (App (heap s ! p)))"

text \<open>Whether \<open>CalcMD5\<close> can read the file of handle \<open>p\<close>.\<close>

definition hashable :: "state \<Rightarrow> ptr \<Rightarrow> bool" where
  "hashable s p =
     (case files s (Path (heap s ! p)) of Some (Content c) \<Rightarrow> True | _ \<Rightarrow> False)"

text \<open>Go's \<open>range\<close> over a map visits every key exactly once.\<close>

definition range_ok :: "env \<Rightarrow> state \<Rightarrow> bool" where
  "range_ok E s =
     (distinct (range_keys E (PluginMap (mgr s)))
      \<and> set (range_keys E (PluginMap (mgr s))) = dom (PluginMap (mgr s)))"

section \<open>A concrete world\<close>

text \<open>
  The host binary is \<open>/bin/otto\<close> and serves the built-in plugins \<open>build\<close> and
  \<open>deploy\<close>; any other command fails to start.
\<close>

definition ex_manifest :: usedPluginWrapper where
  "ex_manifest =
     \<lparr>Version = 1,
      Plugins_w = Some [(''/bin/otto'', [''plugin-builtin'', ''build''],
                         hex_EncodeToString (replicate 16 3))]\<rparr>"

definition ex_env :: env where
  "ex_env =
     \<lparr>testingMode = False,
      osext_Executable = Inr ''/bin/otto'',
      NumCPU = 2,
      range_keys = (\<lambda>m. filter (\<lambda>k. m k \<noteq> None) [''build'', ''deploy'']),
      pluginClient_Client =
        (\<lambda>path args. if path = ''/bin/otto'' then Inr (length args)
                      else Inl (ExtError ''exec: not found'')),
      client_App = (\<lambda>client. Inr client),
      appImpl_Meta = (\<lambda>a. (Some \<lparr>Tuples = [''custom'']\<rparr>, None)),
      md5_Sum = (\<lambda>c. replicate 16 (length c)),
      json_Encode = (\<lambda>w. if w = ex_manifest then ''manifest'' else ''other''),
      json_Decode =
        (\<lambda>c. if c = ''manifest'' then Inr ex_manifest
              else if c = ''newer'' then Inr \<lparr>Version = 2, Plugins_w = None\<rparr>
              else Inl (ExtError ''json'')),
      os_Create_error = (\<lambda>path. None),
      write_error = (\<lambda>path. None)\<rparr>"

definition ex_mgr :: PluginManager where
  "ex_mgr = \<lparr>PluginDirs = [], PluginMap = [''build'' \<mapsto> 0, ''deploy'' \<mapsto> 1], plugins = None\<rparr>"

definition ex_files :: "string \<rightharpoonup> file_data" where
  "ex_files = [''/bin/otto'' \<mapsto> Content ''ELF'', ''newer.json'' \<mapsto> Content ''newer'']"

text \<open>A fresh process: no plugin object, no live handle set.\<close>

definition ex_fresh :: state where
  "ex_fresh = \<lparr>heap = [], mgr = ex_mgr, files = ex_files, exec_log = []\<rparr>"

text \<open>
  A live set of two handles that have not been loaded: the built-in \<open>build\<close> and a
  plugin whose executable does not exist.
\<close>

definition ex_two :: state where
  "ex_two =
     \<lparr>heap = [builtin_Plugin ''/bin/otto'' ''build'', new_Plugin ''/missing'' [] []],
      mgr = ex_mgr\<lparr>plugins := Some [0, 1]\<rparr>,
      files = ex_files,
      exec_log = []\<rparr>"


text \<open>
  The two built-ins after \<open>LoadAll\<close>, with the factory of \<open>build\<close> called once.
\<close>

definition ex_used :: state where
  "ex_used =
     \<lparr>heap = [(builtin_Plugin ''/bin/otto'' ''build'')
                 \<lparr>App := UsedFactory 0 2, AppMeta := Some \<lparr>Tuples = [''custom'']\<rparr>,
                  used := True\<rparr>,
              (builtin_Plugin ''/bin/otto'' ''deploy'')
                 \<lparr>App := UsedFactory 1 2, AppMeta := Some \<lparr>Tuples = [''custom'']\<rparr>\<rparr>],
      mgr = ex_mgr\<lparr>plugins := Some [0, 1]\<rparr>,
      files = ex_files,
      exec_log = [(''/bin/otto'', [''plugin-builtin'', ''build'']),
                  (''/bin/otto'', [''plugin-builtin'', ''deploy''])]\<rparr>"

text \<open>
  A handle that carries an \<open>MD5\<close> computed from an earlier content of its file.
\<close>

definition ex_stale :: state where
  "ex_stale =
     \<lparr>heap = [(builtin_Plugin ''/bin/otto'' ''build'')
                 \<lparr>MD5 := ''d41d8cd98f00b204e9800998ecf8427e''\<rparr>],
      mgr = ex_mgr\<lparr>plugins := Some [0]\<rparr>,
      files = ex_files,
      exec_log = []\<rparr>"

text \<open>A live set whose only handle has been used and whose executable is gone.\<close>

definition ex_gone :: state where
  "ex_gone =
     \<lparr>heap = [(new_Plugin ''/missing'' [] [])\<lparr>used := True\<rparr>],
      mgr = ex_mgr\<lparr>plugins := Some [0]\<rparr>,
      files = ex_files,
      exec_log = []\<rparr>"

section \<open>Frame lemmas\<close>

lemma set_plugin_simps [simp]:
  "heap (set_plugin p f s) = (heap s)[p := f (heap s ! p)]"
  "mgr (set_plugin p f s) = mgr s"
  "files (set_plugin p f s) = files s"
  "exec_log (set_plugin p f s) = exec_log s"
  by (simp_all add: set_plugin_def)

lemma Plugins_set_plugin [simp]: "Plugins (set_plugin p f s) = Plugins s"
  by (simp add: Plugins_def)

lemma nth_update_field:
  assumes "\<And>pl. g (f pl) = g pl"
  shows "g ((h[p := f (h ! p)]) ! q) = g (h ! q)"
proof (cases "p < length h")
  case True
  then show ?thesis using assms by (cases "q = p") simp_all
next
  case False
  then show ?thesis by (simp add: list_update_beyond)
qed

lemma set_plugin_field:
  assumes "\<And>pl. g (f pl) = g pl"
  shows "g (heap (set_plugin p f s) ! q) = g (heap s ! q)"
  using assms by (simp add: nth_update_field)

lemma Load_mgr [simp]: "mgr (snd (Load E p s)) = mgr s"
  by (simp add: Load_def Let_def split: sum.splits prod.splits option.splits)

lemma Load_files [simp]: "files (snd (Load E p s)) = files s"
  by (simp add: Load_def Let_def split: sum.splits prod.splits option.splits)

lemma Load_Plugins [simp]: "Plugins (snd (Load E p s)) = Plugins s"
  by (simp add: Plugins_def)

lemma Load_length [simp]: "length (heap (snd (Load E p s))) = length (heap s)"
  by (simp add: Load_def Let_def split: sum.splits prod.splits option.splits)

lemma Load_exec_log [simp]:
  "exec_log (snd (Load E p s)) = exec_log s @ [(Path (heap s ! p), Args (heap s ! p))]"
  by (simp add: Load_def Let_def split: sum.splits prod.splits option.splits)


lemma Load_keeps:
  assumes "\<And>pl m. g (pl\<lparr>AppMeta := m\<rparr>) = g pl"
    and "\<And>pl u a. g (pl\<lparr>used := u, App := a\<rparr>) = g pl"
  shows "g (heap (snd (Load E p s)) ! q) = g (heap s ! q)"
  unfolding Load_def Let_def
  by (simp add: set_plugin_field assms del: set_plugin_simps
           split: sum.splits prod.splits option.splits)

lemma Load_Path [simp]: "Path (heap (snd (Load E p s)) ! q) = Path (heap s ! q)"
  by (rule Load_keeps) simp_all

lemma Load_Args [simp]: "Args (heap (snd (Load E p s)) ! q) = Args (heap s ! q)"
  by (rule Load_keeps) simp_all

lemma Load_MD5 [simp]: "MD5 (heap (snd (Load E p s)) ! q) = MD5 (heap s ! q)"
  by (rule Load_keeps) simp_all


section \<open>The load pass\<close>


lemma load_task_eq:
  "load_task E p (merr, s) =
     (case fst (Load E p s) of
        None \<Rightarrow> merr
      | Some err \<Rightarrow> Some (multierror_Append merr (LoadError (Path (heap s ! p)) err)),
      snd (Load E p s))"
  by (cases "Load E p s") (auto simp: load_task_def split: option.splits dest: arg_cong [where f = "\<lambda>r. Path (heap (snd r) ! p)"])



section \<open>Facts about the concrete world\<close>

lemma ex_two_simps:
  "heap ex_two ! 0 = builtin_Plugin ''/bin/otto'' ''build''"
  "heap ex_two ! Suc 0 = new_Plugin ''/missing'' [] []"
  "Plugins ex_two = Some [0, 1]"
  "length (heap ex_two) = 2"
  "exec_log ex_two = []"
  by (simp_all add: ex_two_def Plugins_def)




section \<open>Discovery and allocation\<close>

lemma add_plugin_fold:
  "fold (\<lambda>x. add_plugin (f x)) xs (res, t) =
     (res @ [length (heap t)..<length (heap t) + length xs], t\<lparr>heap := heap t @ map f xs\<rparr>)"
proof (induction xs arbitrary: res t)
  case Nil
  then show ?case by simp
next
  case (Cons x xs)
  have "add_plugin (f x) (res, t) = (res @ [length (heap t)], t\<lparr>heap := heap t @ [f x]\<rparr>)"
    by (simp add: add_plugin_def alloc_def)
  moreover have "[length (heap t)..<length (heap t) + length (x # xs)]
      = length (heap t) # [Suc (length (heap t))..<Suc (length (heap t)) + length xs]"
    by (simp add: upt_conv_Cons del: upt_Suc)
  ultimately show ?case
    by (simp add: Cons.IH del: upt_Suc)
qed

lemma Discover_builtin:
  assumes "\<not> testingMode E" and "osext_Executable E = Inr exe"
  shows "Discover E s =
     (None, s\<lparr>heap := heap s @ map (builtin_Plugin exe) (range_keys E (PluginMap (mgr s))),
              mgr := (mgr s)\<lparr>plugins :=
                Some [length (heap s)..<
                      length (heap s) + length (range_keys E (PluginMap (mgr s)))]\<rparr>\<rparr>)"
  using assms by (simp add: Discover_def add_plugin_fold)

lemma Discover_testing:
  "testingMode E \<Longrightarrow> Discover E s = (None, s\<lparr>mgr := (mgr s)\<lparr>plugins := Some []\<rparr>\<rparr>)"
  by (simp add: Discover_def)


lemma load_fold_mgr: "mgr (snd (fold (load_task E) ps acc)) = mgr (snd acc)"
proof (induction ps arbitrary: acc)
  case Nil
  then show ?case by simp
next
  case (Cons p ps)
  then show ?case by (cases acc) (simp add: load_task_eq)
qed

lemma load_fold_fields:
  "Path (heap (snd (fold (load_task E) ps acc)) ! q) = Path (heap (snd acc) ! q)
   \<and> Args (heap (snd (fold (load_task E) ps acc)) ! q) = Args (heap (snd acc) ! q)
   \<and> MD5 (heap (snd (fold (load_task E) ps acc)) ! q) = MD5 (heap (snd acc) ! q)"
proof (induction ps arbitrary: acc)
  case Nil
  then show ?case by simp
next
  case (Cons p ps)
  then show ?case by (cases acc) (simp add: load_task_eq)
qed

lemma load_pass_fields [simp]:
  "Path (heap (snd (load_pass E s)) ! q) = Path (heap s ! q)"
  "Args (heap (snd (load_pass E s)) ! q) = Args (heap s ! q)"
  "MD5 (heap (snd (load_pass E s)) ! q) = MD5 (heap s ! q)"
  by (simp_all add: load_pass_def load_fold_fields)

lemma load_pass_recipes [simp]: "recipes (snd (load_pass E s)) ps = recipes s ps"
  by (simp add: recipes_def)

lemma load_pass_Plugins [simp]: "Plugins (snd (load_pass E s)) = Plugins s"
  by (simp add: load_pass_def Plugins_def load_fold_mgr)

lemma recipes_builtin:
  "recipes (s\<lparr>heap := heap s @ map (builtin_Plugin exe) ks, mgr := m\<rparr>)
           [length (heap s)..<length (heap s) + length ks]
   = map (\<lambda>k. (exe, [''plugin-builtin'', k])) ks"
  by (rule nth_equalityI)
     (simp_all add: recipes_def nth_append builtin_Plugin_def new_Plugin_def)

lemma count_builtin:
  assumes "distinct ks"
  shows "count_list (map (\<lambda>k. (exe, [''plugin-builtin'', k])) ks) (exe, [''plugin-builtin'', k])
         = (if k \<in> set ks then 1 else 0)"
  using assms by (induction ks) auto

lemma ex_keys:
  "range_keys ex_env (PluginMap (mgr ex_two)) = [''build'', ''deploy'']"
  "range_keys ex_env (PluginMap (mgr ex_fresh)) = [''build'', ''deploy'']"
  by (simp_all add: ex_env_def ex_two_def ex_fresh_def ex_mgr_def)

lemma ex_range_ok: "range_ok ex_env ex_two" "range_ok ex_env ex_fresh"
  unfolding range_ok_def ex_keys by (auto simp: ex_two_def ex_fresh_def ex_mgr_def)

lemma ex_env_simps:
  "\<not> testingMode ex_env"
  "osext_Executable ex_env = Inr ''/bin/otto''"
  "NumCPU ex_env = 2"
  by (simp_all add: ex_env_def)

section \<open>The hashing pass\<close>

lemma hex_nonempty: "bs \<noteq> [] \<Longrightarrow> hex_EncodeToString bs \<noteq> []"
  by (cases bs) (simp_all add: hex_EncodeToString_def)

lemma CalcMD5_frame [simp]:
  "mgr (snd (CalcMD5 E p s)) = mgr s"
  "files (snd (CalcMD5 E p s)) = files s"
  "exec_log (snd (CalcMD5 E p s)) = exec_log s"
  "length (heap (snd (CalcMD5 E p s))) = length (heap s)"
  by (simp_all add: CalcMD5_def split: sum.splits)

lemma CalcMD5_keeps:
  assumes "\<And>pl m. g (pl\<lparr>MD5 := m\<rparr>) = g pl"
  shows "g (heap (snd (CalcMD5 E p s)) ! q) = g (heap s ! q)"
  unfolding CalcMD5_def
  by (simp add: set_plugin_field assms del: set_plugin_simps split: sum.splits)

lemma CalcMD5_fields [simp]:
  "Path (heap (snd (CalcMD5 E p s)) ! q) = Path (heap s ! q)"
  "Args (heap (snd (CalcMD5 E p s)) ! q) = Args (heap s ! q)"
  "used (heap (snd (CalcMD5 E p s)) ! q) = used (heap s ! q)"
  "App (heap (snd (CalcMD5 E p s)) ! q) = App (heap s ! q)"
  "AppMeta (heap (snd (CalcMD5 E p s)) ! q) = AppMeta (heap s ! q)"
  by (rule CalcMD5_keeps, simp)+

lemma CalcMD5_MD5_kept:
  assumes "\<forall>c. md5_Sum E c \<noteq> []" and "MD5 (heap s ! q) \<noteq> []"
  shows "MD5 (heap (snd (CalcMD5 E p s)) ! q) \<noteq> []"
proof (cases "p < length (heap s) \<and> q = p")
  case True
  with assms show ?thesis
    by (simp add: CalcMD5_def hex_nonempty split: sum.splits)
next
  case False
  with assms(2) show ?thesis
    by (auto simp: CalcMD5_def list_update_beyond split: sum.splits)
qed

lemma CalcMD5_MD5_set:
  assumes "\<forall>c. md5_Sum E c \<noteq> []" and "p < length (heap s)" and "hashable s p"
  shows "MD5 (heap (snd (CalcMD5 E p s)) ! p) \<noteq> []"
  using assms
  by (auto simp: CalcMD5_def hashable_def os_Open_def io_ReadAll_def hex_nonempty
           split: option.splits file_data.splits)

lemma hashable_CalcMD5 [simp]: "hashable (snd (CalcMD5 E p s)) q = hashable s q"
  by (simp add: hashable_def)

lemma hash_task_eq: "hash_task E p (err, s) = (err, snd (CalcMD5 E p s))"
  by (cases "CalcMD5 E p s") (simp add: hash_task_def Let_def split: option.splits)

lemma hash_fold_frame:
  "fst (fold (hash_task E) ps acc) = fst acc
   \<and> mgr (snd (fold (hash_task E) ps acc)) = mgr (snd acc)
   \<and> files (snd (fold (hash_task E) ps acc)) = files (snd acc)
   \<and> exec_log (snd (fold (hash_task E) ps acc)) = exec_log (snd acc)
   \<and> length (heap (snd (fold (hash_task E) ps acc))) = length (heap (snd acc))
   \<and> Path (heap (snd (fold (hash_task E) ps acc)) ! q) = Path (heap (snd acc) ! q)
   \<and> Args (heap (snd (fold (hash_task E) ps acc)) ! q) = Args (heap (snd acc) ! q)
   \<and> used (heap (snd (fold (hash_task E) ps acc)) ! q) = used (heap (snd acc) ! q)"
proof (induction ps arbitrary: acc)
  case Nil
  then show ?case by simp
next
  case (Cons p ps)
  then show ?case by (cases acc) (simp add: hash_task_eq)
qed

lemma hash_fold_MD5_set:
  assumes "\<forall>c. md5_Sum E c \<noteq> []"
    and "list_all (\<lambda>p. p < length (heap s)) ps" and "list_all (hashable s) ps"
  shows "list_all (\<lambda>p. MD5 (heap (snd (fold (hash_task E) ps (err, s))) ! p) \<noteq> []) ps"
  using assms(2,3)
proof (induction ps arbitrary: s err rule: rev_induct)
  case Nil
  then show ?case by simp
next
  case (snoc p ps)
  let ?t = "snd (fold (hash_task E) ps (err, s))"
  have f: "fold (hash_task E) ps (err, s) = (err, ?t)"
    using hash_fold_frame [of E ps "(err, s)"] by (cases "fold (hash_task E) ps (err, s)") simp
  from snoc have IH: "list_all (\<lambda>p. MD5 (heap ?t ! p) \<noteq> []) ps"
    by simp
  have len: "length (heap ?t) = length (heap s)"
    using hash_fold_frame [of E ps "(err, s)"] by simp
  have hp: "hashable ?t p"
    using snoc.prems(2) hash_fold_frame [of E ps "(err, s)" p]
    by (simp add: hashable_def)
  have new: "MD5 (heap (snd (CalcMD5 E p ?t)) ! p) \<noteq> []"
    using snoc.prems(1) len hp by (intro CalcMD5_MD5_set [OF assms(1)]) simp_all
  have old: "list_all (\<lambda>q. MD5 (heap (snd (CalcMD5 E p ?t)) ! q) \<noteq> []) ps"
    using IH by (simp add: list_all_iff CalcMD5_MD5_kept [OF assms(1)])
  have "fold (hash_task E) (ps @ [p]) (err, s) = hash_task E p (err, ?t)"
    by (simp add: f [symmetric])
  then have "snd (fold (hash_task E) (ps @ [p]) (err, s)) = snd (CalcMD5 E p ?t)"
    by (simp only: hash_task_eq snd_conv)
  then show ?case
    using new old by simp
qed

section \<open>Persisting and reloading the used plugins\<close>

lemma StoreUsed_writes:
  assumes "os_Create_error E path = None" and "write_error E path = None"
  shows "StoreUsed E path s =
     (None, (snd (fold (hash_task E) (used_plugins s) (None, s)))
              \<lparr>files := (files s)(path \<mapsto> Content (json_Encode E
                  (manifest (snd (fold (hash_task E) (used_plugins s) (None, s)))
                            (used_plugins s))))\<rparr>)"
proof -
  obtain err s1 where f: "fold (hash_task E) (used_plugins s) (None, s) = (err, s1)"
    by (cases "fold (hash_task E) (used_plugins s) (None, s)")
  from hash_fold_frame [of E "used_plugins s" "(None, s)"] f
  have "err = None" and "files s1 = files s" by simp_all
  then show ?thesis
    using assms by (simp add: StoreUsed_def f)
qed

lemma adopted_fields:
  "recipes (t\<lparr>heap := heap t @ map of_json js, mgr := m\<rparr>)
           [length (heap t)..<length (heap t) + length js]
     = map (\<lambda>j. (fst j, fst (snd j))) js"
  "map (\<lambda>p. MD5 (heap (t\<lparr>heap := heap t @ map of_json js, mgr := m\<rparr>) ! p))
           [length (heap t)..<length (heap t) + length js]
     = map (\<lambda>j. snd (snd j)) js"
  by (rule nth_equalityI;
      simp add: recipes_def nth_append of_json_def new_Plugin_def split: prod.splits)+

lemma assign_plugins_Some:
  "assign_plugins (Some js) t =
     t\<lparr>heap := heap t @ map of_json js,
       mgr := (mgr t)\<lparr>plugins := Some [length (heap t)..<length (heap t) + length js]\<rparr>\<rparr>"
  by (simp add: assign_plugins_def add_plugin_fold)

lemma LoadUsed_reads:
  assumes "files t path = Some (Content c)" and "json_Decode E c = Inr w"
    and "Version w \<le> usedPluginVersion" and "Plugins_w w = Some js"
  shows "LoadUsed E path t = load_pass E (assign_plugins (Some js) t)"
  using assms
  by (simp add: LoadUsed_def os_Open_def io_ReadAll_def LoadAll_def assign_plugins_Some
        Plugins_def)

lemma ex_used_simps:
  "used_plugins ex_used = [0]"
  "length (heap ex_used) = 2"
  "Path (heap ex_used ! 0) = ''/bin/otto''"
  "Args (heap ex_used ! 0) = [''plugin-builtin'', ''build'']"
  "files ex_used = ex_files"
  by (simp_all add: used_plugins_def Used_def Plugins_def range_slice_def ex_used_def
        builtin_Plugin_def new_Plugin_def)

lemma ex_used_hashable: "hashable ex_used 0"
  by (simp add: hashable_def ex_used_simps ex_files_def)

lemma ex_hash_pass:
  "to_json (heap (snd (CalcMD5 ex_env 0 ex_used)) ! 0)
     = (''/bin/otto'', [''plugin-builtin'', ''build''], hex_EncodeToString (replicate 16 3))"
proof -
  have "CalcMD5 ex_env 0 ex_used
      = (None, set_plugin 0 (\<lambda>pl. pl\<lparr>MD5 := hex_EncodeToString (replicate 16 3)\<rparr>) ex_used)"
    by (simp add: CalcMD5_def os_Open_def io_ReadAll_def ex_used_simps ex_files_def ex_env_def
          numeral_3_eq_3)
  then show ?thesis
    by (simp add: to_json_def ex_used_simps)
qed

lemma ex_store_open:
  "os_Create_error ex_env path = None" "write_error ex_env path = None"
  "\<forall>c. length (md5_Sum ex_env c) = 16"
  by (simp_all add: ex_env_def)

lemma ex_manifest_stored:
  "manifest (snd (StoreUsed ex_env ''used.json'' ex_used)) (used_plugins ex_used) = ex_manifest"
  by (simp add: StoreUsed_writes [OF ex_store_open(1,2)] manifest_def ex_used_simps
        hash_task_eq ex_hash_pass ex_manifest_def usedPluginVersion_def)

lemma ex_codec:
  "json_Decode ex_env (json_Encode ex_env ex_manifest) = Inr ex_manifest"
  by (simp add: ex_env_def)

lemma ex_gone_simps:
  "used_plugins ex_gone = [0]"
  "Path (heap ex_gone ! 0) = ''/missing''"
  "files ex_gone ''/missing'' = None"
  by (simp_all add: used_plugins_def Used_def Plugins_def range_slice_def ex_gone_def
        new_Plugin_def ex_files_def)

section \<open>Configuring the core\<close>



lemma last_wins_Nil [simp]: "last_wins s [] apps = apps"
  by (simp add: last_wins_def)



lemma ex_used_meta:
  "AppMeta (heap ex_used ! 0) = Some \<lparr>Tuples = [''custom'']\<rparr>"
  "AppMeta (heap ex_used ! Suc 0) = Some \<lparr>Tuples = [''custom'']\<rparr>"
  "App (heap ex_used ! 0) = UsedFactory 0 2"
  "App (heap ex_used ! Suc 0) = UsedFactory 1 2"
  "range_slice (Plugins ex_used) = [0, 1]"
  by (simp_all add: ex_used_def Plugins_def range_slice_def)


lemma ex_stale_simps:
  "heap ex_stale ! 0 = (builtin_Plugin ''/bin/otto'' ''build'')
                 \<lparr>MD5 := ''d41d8cd98f00b204e9800998ecf8427e''\<rparr>"
  "files ex_stale ''/bin/otto'' = Some (Content ''ELF'')"
  by (simp_all add: ex_stale_def ex_files_def)

section \<open>The used flag\<close>




















section \<open>The task pool\<close>

lemma count_update:
  assumes "i < length xs"
  shows "length (filter Q (xs[i := y])) + (if Q (xs ! i) then 1 else 0)
         = length (filter Q xs) + (if Q y then 1 else 0)"
  using assms
proof (induction xs arbitrary: i)
  case Nil
  then show ?case by simp
next
  case (Cons x xs)
  then show ?case by (cases i) auto
qed

lemma step_permits:
  assumes "step P e = Some P'"
  shows "in_flight P' + free P' = in_flight P + free P"
proof (cases e)
  case (Acquire i)
  with assms have i: "i < length (tasks P)" and w: "tasks P ! i = Waiting" and f: "0 < free P"
    and P': "P' = P\<lparr>free := free P - 1, tasks := (tasks P)[i := Working]\<rparr>"
    by (auto simp: sema_Acquire_def split: if_splits)
  from count_update [OF i, of "\<lambda>ph. ph = Working" Working] w
  have "in_flight P' = in_flight P + 1"
    by (simp add: in_flight_def P')
  with f show ?thesis by (simp add: P')
next
  case (Release i)
  with assms have i: "i < length (tasks P)" and w: "tasks P ! i = Working"
    and P': "P' = P\<lparr>free := free P + 1, tasks := (tasks P)[i := Finished]\<rparr>"
    by (auto simp: sema_Release_def split: if_splits)
  from count_update [OF i, of "\<lambda>ph. ph = Working" Finished] w
  have "in_flight P' + 1 = in_flight P"
    by (simp add: in_flight_def P')
  then show ?thesis by (simp add: P')
qed

lemma run_permits:
  assumes "run P es = Some P'"
  shows "in_flight P' + free P' = in_flight P + free P"
  using assms
proof (induction es arbitrary: P)
  case Nil
  then show ?case by simp
next
  case (Cons e es)
  then obtain Q where s: "step P e = Some Q" and r: "run Q es = Some P'"
    by (auto split: option.splits)
  from Cons.IH [OF r] step_permits [OF s] show ?case by simp
qed

lemma spawn_permits: "in_flight (spawn E ps) + free (spawn E ps) = NumCPU E"
  by (simp add: spawn_def in_flight_def semaphore_New_def)

section \<open>Claims\<close>

text \<open>
  C1. The claim (a hash failure makes \<open>StoreUsed\<close> return the aggregated error and
  write nothing) is what lines 212-223 set out to do, and the code misses it: the error
  is appended to the \<open>err\<close> declared by the \<open>if\<close> statement of line 212, so the \<open>err\<close>
  tested at line 221 is still nil. In the state \<open>ex_gone\<close>, whose only used handle
  points at a file that does not exist, \<open>CalcMD5\<close> fails, and \<open>StoreUsed\<close> returns nil
  and writes a manifest that lists the handle with an empty \<open>md5\<close>.
\<close>

theorem StoreUsed_ignores_hash_failure:
  "fst (CalcMD5 ex_env 0 ex_gone) = Some (ExtError ''open /missing'')
   \<and> fst (StoreUsed ex_env ''used.json'' ex_gone) = None
   \<and> files (snd (StoreUsed ex_env ''used.json'' ex_gone)) ''used.json''
       = Some (Content (json_Encode ex_env
                 \<lparr>Version = 1, Plugins_w = Some [(''/missing'', [], [])]\<rparr>))"
proof -
  have c: "CalcMD5 ex_env 0 ex_gone = (Some (ExtError ''open /missing''), ex_gone)"
    by (simp add: CalcMD5_def os_Open_def ex_gone_simps)
  have m: "manifest ex_gone [0] = \<lparr>Version = 1, Plugins_w = Some [(''/missing'', [], [])]\<rparr>"
    by (simp add: manifest_def usedPluginVersion_def to_json_def ex_gone_def new_Plugin_def)
  show ?thesis
    by (simp add: StoreUsed_writes [OF ex_store_open(1,2)] ex_gone_simps(1) hash_task_eq c m)
qed

text \<open>
  C2. The comment on the field (lines 50-52) says that \<open>MD5\<close> "will be verified on
  Load", and the claim says the same; \<open>Load\<close> never reads the field. The handle of
  \<open>ex_stale\<close> carries an \<open>MD5\<close> that differs from the hash \<open>CalcMD5\<close> computes of its file
  now, and \<open>Load\<close> succeeds on it.
\<close>

theorem Load_does_not_verify_MD5:
  "MD5 (heap ex_stale ! 0) = ''d41d8cd98f00b204e9800998ecf8427e''
   \<and> fst (CalcMD5 ex_env 0 ex_stale) = None
   \<and> MD5 (heap (snd (CalcMD5 ex_env 0 ex_stale)) ! 0) = ''03030303030303030303030303030303''
   \<and> fst (Load ex_env 0 ex_stale) = None
   \<and> App (heap (snd (Load ex_env 0 ex_stale)) ! 0) = UsedFactory 0 2"
proof -
  have h: "hex_EncodeToString (replicate 16 3) = ''03030303030303030303030303030303''"
    by code_simp
  have c: "CalcMD5 ex_env 0 ex_stale
      = (None, set_plugin 0 (\<lambda>pl. pl\<lparr>MD5 := hex_EncodeToString (replicate 16 3)\<rparr>) ex_stale)"
    by (simp add: CalcMD5_def os_Open_def io_ReadAll_def ex_stale_simps ex_env_def
          builtin_Plugin_def new_Plugin_def numeral_3_eq_3)
  have l: "fst (Load ex_env 0 ex_stale) = None"
    "App (heap (snd (Load ex_env 0 ex_stale)) ! 0) = UsedFactory 0 2"
    by (simp_all add: Load_def Let_def ex_stale_simps ex_env_def builtin_Plugin_def new_Plugin_def)
       (simp_all add: ex_stale_def)
  show ?thesis
    by (simp add: c l h) (simp add: ex_stale_def)
qed




text \<open>
  C4. A manifest that can be read and decoded and whose version is greater than
  \<open>usedPluginVersion\<close> (which is 1) makes \<open>LoadUsed\<close> return the "format is newer"
  error, and the whole state, the live handle set included, is as it was.
\<close>

theorem LoadUsed_rejects_newer_version:
  assumes "files s path = Some (Content c)"
    and "json_Decode E c = Inr wrapper"
    and "Version wrapper > 1"
  shows "LoadUsed E path s = (Some FormatNewerError, s)
         \<and> Plugins (snd (LoadUsed E path s)) = Plugins s
         \<and> usedPluginVersion = 1"
  using assms by (simp add: LoadUsed_def os_Open_def io_ReadAll_def usedPluginVersion_def)

theorem LoadUsed_rejects_newer_version_witness:
  "LoadUsed ex_env ''newer.json'' ex_two = (Some FormatNewerError, ex_two)
   \<and> Plugins (snd (LoadUsed ex_env ''newer.json'' ex_two)) = Some [0, 1]"
proof -
  have f: "files ex_two ''newer.json'' = Some (Content ''newer'')"
    by (simp add: ex_two_def ex_files_def)
  have d: "json_Decode ex_env ''newer'' = Inr \<lparr>Version = 2, Plugins_w = None\<rparr>"
    by (simp add: ex_env_def)
  have v: "Version \<lparr>Version = 2, Plugins_w = None\<rparr> > 1"
    by simp
  have p: "Plugins ex_two = Some [0, 1]"
    by (simp add: Plugins_def ex_two_def)
  show ?thesis
    using LoadUsed_rejects_newer_version [OF f d v] p by simp
qed






text \<open>
  C7. Round trip. Let the used handles of the live set be allocated objects whose files
  \<open>CalcMD5\<close> can read, let the file at \<open>path\<close> be creatable and writable, let an MD5
  digest have 16 bytes, and let the JSON decoder of the reading process give back the
  manifest that \<open>StoreUsed\<close> encoded. Then \<open>StoreUsed path\<close> succeeds, and \<open>LoadUsed path\<close>,
  run in any state \<open>t\<close> that sees the file just written (the same process or a fresh
  one), whatever it returns, leaves a live handle set whose \<open>(Path, Args)\<close> pairs are,
  in the same order, those of the handles that were used at store time, and every
  handle of which has a non-empty \<open>MD5\<close>.
\<close>

theorem StoreUsed_LoadUsed_roundtrip:
  assumes "list_all (\<lambda>p. p < length (heap s)) (used_plugins s)"
    and "list_all (hashable s) (used_plugins s)"
    and "\<forall>c. length (md5_Sum E c) = 16"
    and "os_Create_error E path = None" and "write_error E path = None"
    and "files t path = files (snd (StoreUsed E path s)) path"
    and "json_Decode E' (json_Encode E (manifest (snd (StoreUsed E path s)) (used_plugins s)))
           = Inr (manifest (snd (StoreUsed E path s)) (used_plugins s))"
  shows "fst (StoreUsed E path s) = None
       \<and> Plugins (snd (LoadUsed E' path t)) \<noteq> None
       \<and> recipes (snd (LoadUsed E' path t)) (range_slice (Plugins (snd (LoadUsed E' path t))))
           = recipes s (used_plugins s)
       \<and> list_all (\<lambda>p. MD5 (heap (snd (LoadUsed E' path t)) ! p) \<noteq> [])
                  (range_slice (Plugins (snd (LoadUsed E' path t))))"
proof -
  let ?ps = "used_plugins s"
  let ?s1 = "snd (fold (hash_task E) ?ps (None, s))"
  let ?js = "map (\<lambda>p. to_json (heap ?s1 ! p)) ?ps"
  let ?n = "length (heap t)"
  let ?u = "assign_plugins (Some ?js) t"
  have digest: "\<forall>c. md5_Sum E c \<noteq> []"
    using assms(3) by (metis length_0_conv zero_neq_numeral)
  have st: "StoreUsed E path s =
      (None, ?s1\<lparr>files := (files s)(path \<mapsto> Content (json_Encode E (manifest ?s1 ?ps)))\<rparr>)"
    by (rule StoreUsed_writes [OF assms(4,5)])
  have m: "manifest (snd (StoreUsed E path s)) ?ps = manifest ?s1 ?ps"
    by (simp add: st manifest_def)
  have fl: "files t path = Some (Content (json_Encode E (manifest ?s1 ?ps)))"
    using assms(6) by (simp add: st)
  have dec: "json_Decode E' (json_Encode E (manifest ?s1 ?ps)) = Inr (manifest ?s1 ?ps)"
    using assms(7) by (simp only: m)
  have lu: "LoadUsed E' path t = load_pass E' ?u"
    by (rule LoadUsed_reads [OF fl dec]) (simp_all add: manifest_def)
  have P: "range_slice (Plugins ?u) = [?n..<?n + length ?js]"
    by (simp add: assign_plugins_Some Plugins_def range_slice_def)
  have c2: "Plugins (snd (LoadUsed E' path t)) \<noteq> None"
    by (simp add: lu) (simp add: assign_plugins_Some Plugins_def)
  have "recipes ?u (range_slice (Plugins ?u)) = map (\<lambda>j. (fst j, fst (snd j))) ?js"
    unfolding P unfolding assign_plugins_Some by (rule adopted_fields)
  also have "\<dots> = recipes ?s1 ?ps"
    by (simp add: recipes_def to_json_def)
  also have "\<dots> = recipes s ?ps"
    using hash_fold_frame [of E ?ps "(None, s)"] by (simp add: recipes_def)
  finally have c3: "recipes (snd (LoadUsed E' path t))
        (range_slice (Plugins (snd (LoadUsed E' path t)))) = recipes s ?ps"
    by (simp add: lu)
  have hashed: "list_all (\<lambda>p. MD5 (heap ?s1 ! p) \<noteq> []) ?ps"
    by (rule hash_fold_MD5_set [OF digest assms(1,2)])
  have "map (\<lambda>p. MD5 (heap ?u ! p)) (range_slice (Plugins ?u)) = map (\<lambda>j. snd (snd j)) ?js"
    unfolding P unfolding assign_plugins_Some by (rule adopted_fields)
  also have "\<dots> = map (\<lambda>p. MD5 (heap ?s1 ! p)) ?ps"
    by (simp add: to_json_def)
  finally have "list_all (\<lambda>h. h \<noteq> []) (map (\<lambda>p. MD5 (heap ?u ! p)) (range_slice (Plugins ?u)))"
    using hashed by (simp add: list_all_iff)
  then have c4: "list_all (\<lambda>p. MD5 (heap (snd (LoadUsed E' path t)) ! p) \<noteq> [])
                  (range_slice (Plugins (snd (LoadUsed E' path t))))"
    by (simp add: lu list_all_iff)
  show ?thesis
    using c2 c3 c4 by (simp add: st)
qed

theorem StoreUsed_LoadUsed_roundtrip_witness:
  "list_all (\<lambda>p. p < length (heap ex_used)) (used_plugins ex_used)
   \<and> list_all (hashable ex_used) (used_plugins ex_used)
   \<and> recipes ex_used (used_plugins ex_used) = [(''/bin/otto'', [''plugin-builtin'', ''build''])]
   \<and> fst (StoreUsed ex_env ''used.json'' ex_used) = None
   \<and> Plugins (snd (LoadUsed ex_env ''used.json''
         (ex_fresh\<lparr>files := files (snd (StoreUsed ex_env ''used.json'' ex_used))\<rparr>))) \<noteq> None
   \<and> recipes (snd (LoadUsed ex_env ''used.json''
         (ex_fresh\<lparr>files := files (snd (StoreUsed ex_env ''used.json'' ex_used))\<rparr>)))
       (range_slice (Plugins (snd (LoadUsed ex_env ''used.json''
         (ex_fresh\<lparr>files := files (snd (StoreUsed ex_env ''used.json'' ex_used))\<rparr>)))))
       = [(''/bin/otto'', [''plugin-builtin'', ''build''])]
   \<and> list_all (\<lambda>p. MD5 (heap (snd (LoadUsed ex_env ''used.json''
         (ex_fresh\<lparr>files := files (snd (StoreUsed ex_env ''used.json'' ex_used))\<rparr>))) ! p) \<noteq> [])
       (range_slice (Plugins (snd (LoadUsed ex_env ''used.json''
         (ex_fresh\<lparr>files := files (snd (StoreUsed ex_env ''used.json'' ex_used))\<rparr>)))))"
proof -
  let ?t = "ex_fresh\<lparr>files := files (snd (StoreUsed ex_env ''used.json'' ex_used))\<rparr>"
  have h1: "list_all (\<lambda>p. p < length (heap ex_used)) (used_plugins ex_used)"
    by (simp add: ex_used_simps)
  have h2: "list_all (hashable ex_used) (used_plugins ex_used)"
    by (simp add: ex_used_simps ex_used_hashable)
  have h6: "files ?t ''used.json'' = files (snd (StoreUsed ex_env ''used.json'' ex_used)) ''used.json''"
    by simp
  have h7: "json_Decode ex_env (json_Encode ex_env
              (manifest (snd (StoreUsed ex_env ''used.json'' ex_used)) (used_plugins ex_used)))
           = Inr (manifest (snd (StoreUsed ex_env ''used.json'' ex_used)) (used_plugins ex_used))"
    unfolding ex_manifest_stored by (rule ex_codec)
  have r: "recipes ex_used (used_plugins ex_used) = [(''/bin/otto'', [''plugin-builtin'', ''build''])]"
    by (simp add: recipes_def ex_used_simps)
  show ?thesis
    using StoreUsed_LoadUsed_roundtrip [OF h1 h2 ex_store_open(3,1,2) h6 h7] h1 h2 r
    by simp
qed

text \<open>
  C8. Outside testing mode, and when the path of the running executable can be
  determined, \<open>Discover\<close> succeeds and replaces the live handle set: the new set holds,
  in the order in which the registry is ranged over, one handle per key of \<open>PluginMap\<close>
  with \<open>Path\<close> the executable and \<open>Args\<close> \<open>["plugin-builtin", key]\<close>; every key of the
  registry has exactly one handle and a string that is not a key has none; the handles
  are fresh objects, none of the previous set; and after a second call the set has the
  size it had after the first. (When \<open>osext.Executable\<close> fails, \<open>Discover\<close> returns
  its error and leaves the set as it was.)
\<close>

theorem Discover_replaces_with_builtins:
  assumes "\<not> testingMode E" and "osext_Executable E = Inr exe" and "range_ok E s"
    and "\<not> testingMode E'" and "osext_Executable E' = Inr exe'" and "range_ok E' s"
  shows "let s' = snd (Discover E s); s'' = snd (Discover E' s') in
         fst (Discover E s) = None
       \<and> Plugins s' \<noteq> None
       \<and> recipes s' (range_slice (Plugins s'))
           = map (\<lambda>k. (exe, [''plugin-builtin'', k])) (range_keys E (PluginMap (mgr s)))
       \<and> (\<forall>k. count_list (recipes s' (range_slice (Plugins s'))) (exe, [''plugin-builtin'', k])
                = (if PluginMap (mgr s) k = None then 0 else 1))
       \<and> length (range_slice (Plugins s')) = card (dom (PluginMap (mgr s)))
       \<and> list_all (\<lambda>p. length (heap s) \<le> p) (range_slice (Plugins s'))
       \<and> handles_ok s'
       \<and> length (range_slice (Plugins s'')) = length (range_slice (Plugins s'))"
proof -
  let ?ks = "range_keys E (PluginMap (mgr s))"
  let ?ks' = "range_keys E' (PluginMap (mgr s))"
  from assms(3) have d: "distinct ?ks" and k: "set ?ks = dom (PluginMap (mgr s))"
    by (simp_all add: range_ok_def)
  from assms(6) have d': "distinct ?ks'" and k': "set ?ks' = dom (PluginMap (mgr s))"
    by (simp_all add: range_ok_def)
  have len: "length ?ks = card (dom (PluginMap (mgr s)))"
    using d k by (metis distinct_card)
  have len': "length ?ks' = card (dom (PluginMap (mgr s)))"
    using d' k' by (metis distinct_card)
  have cnt: "\<And>k. (k \<in> set ?ks) = (PluginMap (mgr s) k \<noteq> None)"
    using k by (auto simp: dom_def)
  define s' where "s' = snd (Discover E s)"
  have s': "s' = s\<lparr>heap := heap s @ map (builtin_Plugin exe) ?ks,
              mgr := (mgr s)\<lparr>plugins := Some [length (heap s)..<length (heap s) + length ?ks]\<rparr>\<rparr>"
    by (simp add: s'_def Discover_builtin [OF assms(1,2)])
  have P: "range_slice (Plugins s') = [length (heap s)..<length (heap s) + length ?ks]"
    by (simp add: s' Plugins_def range_slice_def)
  have R: "recipes s' (range_slice (Plugins s')) = map (\<lambda>k. (exe, [''plugin-builtin'', k])) ?ks"
    unfolding P unfolding s' by (rule recipes_builtin)
  have M: "PluginMap (mgr s') = PluginMap (mgr s)" "length (heap s') = length (heap s) + length ?ks"
    by (simp_all add: s')
  have P2: "range_slice (Plugins (snd (Discover E' s')))
      = [length (heap s')..<length (heap s') + length ?ks']"
    by (simp add: Discover_builtin [OF assms(4,5)] Plugins_def range_slice_def M)
  have c1: "fst (Discover E s) = None"
    by (simp add: Discover_builtin [OF assms(1,2)])
  have c2: "Plugins s' \<noteq> None"
    by (simp add: s' Plugins_def)
  have c4: "\<forall>k. count_list (recipes s' (range_slice (Plugins s'))) (exe, [''plugin-builtin'', k])
                = (if PluginMap (mgr s) k = None then 0 else 1)"
    unfolding R by (simp add: count_builtin [OF d] cnt)
  have c5: "length (range_slice (Plugins s')) = card (dom (PluginMap (mgr s)))"
    unfolding P by (simp add: len)
  have c6: "list_all (\<lambda>p. length (heap s) \<le> p) (range_slice (Plugins s'))"
    unfolding P by (simp add: list_all_iff)
  have c7: "handles_ok s'"
    unfolding handles_ok_def P by (simp add: list_all_iff M)
  have c8: "length (range_slice (Plugins (snd (Discover E' s')))) = length (range_slice (Plugins s'))"
    unfolding P P2 by (simp add: len len')
  show ?thesis
    unfolding Let_def s'_def [symmetric] using c1 c2 R c4 c5 c6 c7 c8 by blast
qed

theorem Discover_replaces_with_builtins_witness:
  "\<not> testingMode ex_env \<and> osext_Executable ex_env = Inr ''/bin/otto'' \<and> range_ok ex_env ex_two
   \<and> range_slice (Plugins ex_two) = [0, 1]
   \<and> fst (Discover ex_env ex_two) = None
   \<and> recipes (snd (Discover ex_env ex_two)) (range_slice (Plugins (snd (Discover ex_env ex_two))))
       = [(''/bin/otto'', [''plugin-builtin'', ''build'']),
          (''/bin/otto'', [''plugin-builtin'', ''deploy''])]
   \<and> list_all (\<lambda>p. 2 \<le> p) (range_slice (Plugins (snd (Discover ex_env ex_two))))
   \<and> length (range_slice (Plugins (snd (Discover ex_env (snd (Discover ex_env ex_two)))))) = 2"
proof -
  have c: "card (dom (PluginMap (mgr ex_two))) = 2"
    by (simp add: ex_two_def ex_mgr_def)
  show ?thesis
    using Discover_replaces_with_builtins
            [OF ex_env_simps(1,2) ex_range_ok(1) ex_env_simps(1,2) ex_range_ok(1)]
    by (simp add: Let_def ex_env_simps ex_range_ok ex_keys ex_two_simps range_slice_def c)
qed

text \<open>
  C9. In every configuration that an interleaving of the goroutines of \<open>LoadAll\<close>'s
  load pass or of \<open>StoreUsed\<close>'s hashing pass can reach, the number of tasks that are
  between \<open>Acquire\<close> and \<open>Release\<close> (running \<open>Load\<close> or \<open>CalcMD5\<close>) is at most the
  permit count \<open>runtime.NumCPU()\<close>; together with the free permits it is exactly that
  count.
\<close>

theorem pool_never_exceeds_permits:
  assumes "run (LoadAll_pool E s) es = Some P \<or> run (StoreUsed_pool E s) es = Some P"
  shows "in_flight P \<le> NumCPU E \<and> in_flight P + free P = NumCPU E"
proof -
  from assms have "in_flight P + free P = NumCPU E"
    by (auto simp: LoadAll_pool_def StoreUsed_pool_def spawn_permits dest!: run_permits)
  then show ?thesis by simp
qed

theorem pool_never_exceeds_permits_witness:
  "run (LoadAll_pool (ex_env\<lparr>NumCPU := 1\<rparr>) ex_used) [Acquire 0, Release 0, Acquire 1]
     = Some \<lparr>free = 0, tasks = [Finished, Working]\<rparr>
   \<and> in_flight \<lparr>free = 0, tasks = [Finished, Working]\<rparr> \<le> NumCPU (ex_env\<lparr>NumCPU := 1\<rparr>)
   \<and> in_flight \<lparr>free = 0, tasks = [Finished, Working]\<rparr> = 1
   \<and> run (LoadAll_pool (ex_env\<lparr>NumCPU := 1\<rparr>) ex_used) [Acquire 0, Acquire 1] = None
   \<and> run (StoreUsed_pool ex_env ex_used) [Acquire 0] = Some \<lparr>free = 1, tasks = [Working]\<rparr>
   \<and> in_flight \<lparr>free = 1, tasks = [Working]\<rparr> \<le> NumCPU ex_env"
proof -
  have a: "run (LoadAll_pool (ex_env\<lparr>NumCPU := 1\<rparr>) ex_used) [Acquire 0, Release 0, Acquire 1]
     = Some \<lparr>free = 0, tasks = [Finished, Working]\<rparr>"
    by (simp add: LoadAll_pool_def spawn_def ex_used_meta semaphore_New_def sema_Acquire_def
          sema_Release_def)
  have b: "run (LoadAll_pool (ex_env\<lparr>NumCPU := 1\<rparr>) ex_used) [Acquire 0, Acquire 1] = None"
    by (simp add: LoadAll_pool_def spawn_def ex_used_meta semaphore_New_def sema_Acquire_def)
  have c: "run (StoreUsed_pool ex_env ex_used) [Acquire 0] = Some \<lparr>free = 1, tasks = [Working]\<rparr>"
    by (simp add: StoreUsed_pool_def spawn_def ex_used_simps semaphore_New_def sema_Acquire_def
          ex_env_simps)
  have d: "in_flight \<lparr>free = 0, tasks = [Finished, Working]\<rparr> = 1"
    by (simp add: in_flight_def)
  from pool_never_exceeds_permits [of "ex_env\<lparr>NumCPU := 1\<rparr>" ex_used
        "[Acquire 0, Release 0, Acquire 1]" "\<lparr>free = 0, tasks = [Finished, Working]\<rparr>"] a
  have e: "in_flight \<lparr>free = 0, tasks = [Finished, Working]\<rparr> \<le> NumCPU (ex_env\<lparr>NumCPU := 1\<rparr>)"
    by blast
  from pool_never_exceeds_permits [of ex_env ex_used "[Acquire 0]" "\<lparr>free = 1, tasks = [Working]\<rparr>"] c
  have f: "in_flight \<lparr>free = 1, tasks = [Working]\<rparr> \<le> NumCPU ex_env"
    by blast
  show ?thesis
    using a b c d e f by blast
qed

text \<open>
  C10. \<open>LoadAll\<close> runs \<open>Discover\<close> exactly when the live handle set is nil. On a nil
  set it is \<open>Discover\<close> followed, unless \<open>Discover\<close> fails, by the load pass; on a set
  that is not nil it is the load pass alone and the set stays the one it was. An empty
  set that is not nil is left alone: \<open>LoadAll\<close> returns nil and the state is unchanged
  (no process is started), and this is the set \<open>Discover\<close> produces in testing mode.
\<close>

theorem LoadAll_discovers_iff_nil:
  "(Plugins s = None \<longrightarrow>
      LoadAll E s = (case Discover E s of
                       (Some err, s') \<Rightarrow> (Some err, s')
                     | (None, s') \<Rightarrow> load_pass E s'))
   \<and> (Plugins s \<noteq> None \<longrightarrow>
        LoadAll E s = load_pass E s \<and> Plugins (snd (LoadAll E s)) = Plugins s)
   \<and> (Plugins s = Some [] \<longrightarrow> LoadAll E s = (None, s))
   \<and> (testingMode E \<longrightarrow>
        Plugins (snd (Discover E s)) = Some []
        \<and> LoadAll E (snd (Discover E s)) = (None, snd (Discover E s)))"
  by (auto simp: LoadAll_def Discover_testing) (simp_all add: load_pass_def range_slice_def Plugins_def)

theorem LoadAll_discovers_iff_nil_witness:
  "Plugins ex_fresh = None
   \<and> recipes (snd (LoadAll ex_env ex_fresh)) (range_slice (Plugins (snd (LoadAll ex_env ex_fresh))))
       = [(''/bin/otto'', [''plugin-builtin'', ''build'']),
          (''/bin/otto'', [''plugin-builtin'', ''deploy''])]
   \<and> Plugins (ex_fresh\<lparr>mgr := ex_mgr\<lparr>plugins := Some []\<rparr>\<rparr>) = Some []
   \<and> LoadAll ex_env (ex_fresh\<lparr>mgr := ex_mgr\<lparr>plugins := Some []\<rparr>\<rparr>)
       = (None, ex_fresh\<lparr>mgr := ex_mgr\<lparr>plugins := Some []\<rparr>\<rparr>)
   \<and> testingMode (ex_env\<lparr>testingMode := True\<rparr>)
   \<and> Plugins (snd (Discover (ex_env\<lparr>testingMode := True\<rparr>) ex_fresh)) = Some []
   \<and> fst (LoadAll (ex_env\<lparr>testingMode := True\<rparr>)
              (snd (Discover (ex_env\<lparr>testingMode := True\<rparr>) ex_fresh))) = None"
proof -
  have n: "Plugins ex_fresh = None"
    by (simp add: Plugins_def ex_fresh_def ex_mgr_def)
  have e: "Plugins (ex_fresh\<lparr>mgr := ex_mgr\<lparr>plugins := Some []\<rparr>\<rparr>) = Some []"
    by (simp add: Plugins_def)
  have t: "testingMode (ex_env\<lparr>testingMode := True\<rparr>)"
    by simp
  have d: "Discover ex_env ex_fresh =
      (None, ex_fresh\<lparr>heap := map (builtin_Plugin ''/bin/otto'') [''build'', ''deploy''],
                     mgr := ex_mgr\<lparr>plugins := Some [0, 1]\<rparr>\<rparr>)"
    by (simp add: Discover_builtin [OF ex_env_simps(1,2)] ex_keys) (simp add: ex_fresh_def)
  have r: "recipes (snd (load_pass ex_env (snd (Discover ex_env ex_fresh))))
             (range_slice (Plugins (snd (Discover ex_env ex_fresh))))
       = [(''/bin/otto'', [''plugin-builtin'', ''build'']),
          (''/bin/otto'', [''plugin-builtin'', ''deploy''])]"
    by (simp add: d Plugins_def range_slice_def recipes_def builtin_Plugin_def new_Plugin_def)
  have fd: "fst (Discover ex_env ex_fresh) = None"
    by (simp add: d)
  from LoadAll_discovers_iff_nil [of ex_fresh ex_env] n
  have "LoadAll ex_env ex_fresh = (case Discover ex_env ex_fresh of
                       (Some err, s') \<Rightarrow> (Some err, s')
                     | (None, s') \<Rightarrow> load_pass ex_env s')"
    by blast
  with fd have a: "LoadAll ex_env ex_fresh = load_pass ex_env (snd (Discover ex_env ex_fresh))"
    by (simp split: prod.splits option.splits)
  from LoadAll_discovers_iff_nil [of "ex_fresh\<lparr>mgr := ex_mgr\<lparr>plugins := Some []\<rparr>\<rparr>" ex_env] e
  have b: "LoadAll ex_env (ex_fresh\<lparr>mgr := ex_mgr\<lparr>plugins := Some []\<rparr>\<rparr>)
       = (None, ex_fresh\<lparr>mgr := ex_mgr\<lparr>plugins := Some []\<rparr>\<rparr>)"
    by blast
  from LoadAll_discovers_iff_nil [of "ex_fresh" "ex_env\<lparr>testingMode := True\<rparr>"] t
  have c: "Plugins (snd (Discover (ex_env\<lparr>testingMode := True\<rparr>) ex_fresh)) = Some []
        \<and> LoadAll (ex_env\<lparr>testingMode := True\<rparr>)
              (snd (Discover (ex_env\<lparr>testingMode := True\<rparr>) ex_fresh))
            = (None, snd (Discover (ex_env\<lparr>testingMode := True\<rparr>) ex_fresh))"
    by blast
  show ?thesis
    unfolding a using n e t r b c by simp
qed

end
